theory Spec2Isabelle
  imports Main
begin

section \<open>The operating system as the scripts see it\<close>

text \<open>
  The scripts of \<^verbatim>\<open>tts-addon\<close> drive an external audio player through three
  calls: \<^verbatim>\<open>subprocess.Popen\<close>, \<^verbatim>\<open>subprocess.run\<close> and \<^verbatim>\<open>os.kill\<close>. Each call
  either raises a Python exception or succeeds and changes the process table. Exceptions
  are values here, and every \<^verbatim>\<open>try\<close>/\<^verbatim>\<open>except\<close> of the source is a case split on
  them.

  A Python \<^verbatim>\<open>str\<close> is an Isabelle \<^typ>\<open>string\<close> with one \<^typ>\<open>char\<close> per code
  point, so \<^verbatim>\<open>len\<close> is \<^const>\<open>length\<close> (the model covers text whose code points are
  below 256).
\<close>

datatype exn = ProcessLookupError | FileNotFoundError | ValueError

text \<open>\<^verbatim>\<open>except OSError\<close> catches the first two, \<^verbatim>\<open>except Exception\<close> and a bare
  \<^verbatim>\<open>except\<close> catch all three.\<close>

fun is_OSError :: "exn \<Rightarrow> bool" where
  "is_OSError ProcessLookupError = True"
| "is_OSError FileNotFoundError = True"
| "is_OSError ValueError = False"

type_synonym pid = int

datatype signal = SIGSTOP | SIGCONT | SIGTERM

datatype pstatus = Running | Suspended

record proc =
  exe :: string
  status :: pstatus
  pending_term :: bool

text \<open>What \<^verbatim>\<open>subprocess.run(..., capture_output=True, text=True)\<close> returns.\<close>

record completed =
  returncode :: int
  stdout :: string

text \<open>
  The state of the machine: the table of live processes, what running
  \<^verbatim>\<open>pgrep afplay\<close> yields at this moment (an exception when the call itself fails, the
  exit status and the captured output otherwise), whether the executables
  \<^verbatim>\<open>killall\<close> and \<^verbatim>\<open>afplay\<close> can be launched, and the process id the next child
  gets. The output of \<^verbatim>\<open>pgrep\<close> is not tied to the table: a process may have exited
  between the listing and the signal.
\<close>

record os =
  procs :: "pid \<rightharpoonup> proc"
  pgrep_afplay :: "exn + completed"
  killall_present :: bool
  afplay_present :: bool
  next_pid :: pid

text \<open>
  What a signal does to the process that receives it. \<^verbatim>\<open>SIGSTOP\<close> suspends it.
  \<^verbatim>\<open>SIGTERM\<close> ends a running process (the player does not handle the signal); on a
  suspended process it stays pending, recorded in \<^const>\<open>pending_term\<close>, and the process
  remains in the table. \<^verbatim>\<open>SIGCONT\<close> lets the process run, and a pending
  \<^verbatim>\<open>SIGTERM\<close> then ends it.
\<close>

fun deliver :: "signal \<Rightarrow> proc \<Rightarrow> proc option" where
  "deliver SIGSTOP pr = Some (pr\<lparr>status := Suspended\<rparr>)"
| "deliver SIGCONT pr = (if pending_term pr then None else Some (pr\<lparr>status := Running\<rparr>))"
| "deliver SIGTERM pr =
     (if status pr = Suspended then Some (pr\<lparr>pending_term := True\<rparr>) else None)"

text \<open>
  \<^verbatim>\<open>os.kill(pid, sig)\<close>: raises \<^verbatim>\<open>ProcessLookupError\<close> when no process has this id,
  and delivers the signal otherwise.
\<close>

definition os_kill :: "pid \<Rightarrow> signal \<Rightarrow> os \<Rightarrow> exn + os" where
  "os_kill p sg w =
     (case procs w p of
        None \<Rightarrow> Inl ProcessLookupError
      | Some pr \<Rightarrow> Inr (w\<lparr>procs := (procs w)(p := deliver sg pr)\<rparr>))"

text \<open>
  \<^verbatim>\<open>subprocess.Popen(['afplay', audio_file])\<close>: raises \<^verbatim>\<open>FileNotFoundError\<close> when the
  player is not installed; otherwise a child process runs the player and the call returns
  its process id at once.
\<close>

definition popen_afplay :: "string \<Rightarrow> os \<Rightarrow> exn + (pid \<times> os)" where
  "popen_afplay audio_file w =
     (if afplay_present w
      then Inr (next_pid w,
                w\<lparr>procs := (procs w)(next_pid w \<mapsto> \<lparr>exe = ''afplay'', status = Running, pending_term = False\<rparr>),
                  next_pid := next_pid w + 1\<rparr>)
      else Inl FileNotFoundError)"

section \<open>\<^verbatim>\<open>tts_gui.py\<close>: the playback controller\<close>

text \<open>The three attributes that \<^verbatim>\<open>TTSController.__init__\<close> sets.
  (\<^verbatim>\<open>start_playback\<close> also stores the \<^verbatim>\<open>Popen\<close> object in \<^verbatim>\<open>self.process\<close>,
  which no method reads.)\<close>

record controller =
  afplay_pid :: "pid option"
  is_playing :: bool
  is_paused :: bool

definition init_controller :: controller where
  "init_controller = \<lparr>afplay_pid = None, is_playing = False, is_paused = False\<rparr>"

text \<open>Python's truth value of \<^verbatim>\<open>self.afplay_pid\<close>: \<^verbatim>\<open>None\<close> and \<^verbatim>\<open>0\<close> are false.\<close>

fun truthy :: "pid option \<Rightarrow> bool" where
  "truthy None = False"
| "truthy (Some p) = (p \<noteq> 0)"

text \<open>
  Every method returns a boolean and updates the controller and the machine. The result
  type keeps a place for an exception that leaves the method, so that "never raises" is a
  statement about the model and not a property of its type.
\<close>

type_synonym 'a outcome = "exn + ('a \<times> controller \<times> os)"

definition start_playback :: "string \<Rightarrow> controller \<Rightarrow> os \<Rightarrow> bool outcome" where
  "start_playback audio_file c w =
     (case popen_afplay audio_file w of
        Inr (p, w') \<Rightarrow>
          Inr (True, c\<lparr>afplay_pid := Some p, is_playing := True, is_paused := False\<rparr>, w')
      | Inl e \<Rightarrow> Inr (False, c, w))"

definition pause_playback :: "controller \<Rightarrow> os \<Rightarrow> bool outcome" where
  "pause_playback c w =
     (if truthy (afplay_pid c) \<and> is_playing c \<and> \<not> is_paused c then
        (case os_kill (the (afplay_pid c)) SIGSTOP w of
           Inr w' \<Rightarrow> Inr (True, c\<lparr>is_paused := True\<rparr>, w')
         | Inl e \<Rightarrow> Inr (False, c, w))
      else Inr (False, c, w))"

definition resume_playback :: "controller \<Rightarrow> os \<Rightarrow> bool outcome" where
  "resume_playback c w =
     (if truthy (afplay_pid c) \<and> is_playing c \<and> is_paused c then
        (case os_kill (the (afplay_pid c)) SIGCONT w of
           Inr w' \<Rightarrow> Inr (True, c\<lparr>is_paused := False\<rparr>, w')
         | Inl e \<Rightarrow> Inr (False, c, w))
      else Inr (False, c, w))"

definition stop_playback :: "controller \<Rightarrow> os \<Rightarrow> bool outcome" where
  "stop_playback c w =
     (if truthy (afplay_pid c) then
        (case os_kill (the (afplay_pid c)) SIGTERM w of
           Inr w' \<Rightarrow>
             Inr (True, c\<lparr>is_playing := False, is_paused := False, afplay_pid := None\<rparr>, w')
         | Inl e \<Rightarrow> Inr (False, c, w))
      else Inr (False, c, w))"

text \<open>
  The states of the specification, read off the guards of the methods: \<^verbatim>\<open>pause_playback\<close>
  acts exactly when the controller is \<open>PLAYING\<close>, \<^verbatim>\<open>resume_playback\<close> exactly when it
  is \<open>PAUSED\<close>, and \<^verbatim>\<open>stop_playback\<close> exactly when a process id is tracked. The
  controller has no attribute that tells \<open>IDLE\<close>, \<open>STOPPED\<close> and \<open>FINISHED\<close> apart.
\<close>

definition PLAYING :: "controller \<Rightarrow> bool" where
  "PLAYING c = (truthy (afplay_pid c) \<and> is_playing c \<and> \<not> is_paused c)"

definition PAUSED :: "controller \<Rightarrow> bool" where
  "PAUSED c = (truthy (afplay_pid c) \<and> is_playing c \<and> is_paused c)"

definition tracked :: "controller \<Rightarrow> bool" where
  "tracked c = truthy (afplay_pid c)"

text \<open>A process with this id is in the table, so that \<^verbatim>\<open>os.kill\<close> finds it.\<close>

definition alive :: "os \<Rightarrow> pid \<Rightarrow> bool" where
  "alive w p = (procs w p \<noteq> None)"

text \<open>
  A run of the controller: the calls a front-end makes, each paired with the machine as
  it is when the call is made (processes come and go between two calls).
\<close>

datatype op = Start string | Pause | Resume | Stop

fun apply_op :: "op \<Rightarrow> controller \<Rightarrow> os \<Rightarrow> bool outcome" where
  "apply_op (Start audio_file) c w = start_playback audio_file c w"
| "apply_op Pause c w = pause_playback c w"
| "apply_op Resume c w = resume_playback c w"
| "apply_op Stop c w = stop_playback c w"

fun run_ops :: "(op \<times> os) list \<Rightarrow> controller \<Rightarrow> exn + controller" where
  "run_ops [] c = Inr c"
| "run_ops ((a, w) # rest) c =
     (case apply_op a c w of
        Inl e \<Rightarrow> Inl e
      | Inr (r, c', w') \<Rightarrow> run_ops rest c')"

fun is_Start :: "op \<Rightarrow> bool" where
  "is_Start (Start audio_file) = True"
| "is_Start a = False"

section \<open>\<^verbatim>\<open>voice_interrupt_gui.py\<close>: discovery and signals to every player\<close>

text \<open>
  \<^verbatim>\<open>str.isspace\<close> on the code points below 256, \<^verbatim>\<open>str.split()\<close> with no argument
  (runs of whitespace separate the words, no empty word is returned) and
  \<^verbatim>\<open>str.strip()\<close>.
\<close>

definition py_isspace :: "char \<Rightarrow> bool" where
  "py_isspace c =
     (let n = (of_char c :: nat)
      in (9 \<le> n \<and> n \<le> 13) \<or> (28 \<le> n \<and> n \<le> 32) \<or> n = 133 \<or> n = 160)"

fun split_words :: "string \<Rightarrow> string \<Rightarrow> string list" where
  "split_words [] word = (if word = [] then [] else [word])"
| "split_words (c # cs) word =
     (if py_isspace c
      then (if word = [] then split_words cs [] else word # split_words cs [])
      else split_words cs (word @ [c]))"

definition py_split :: "string \<Rightarrow> string list" where
  "py_split s = split_words s []"

definition py_strip :: "string \<Rightarrow> string" where
  "py_strip s = rev (dropWhile py_isspace (rev (dropWhile py_isspace s)))"

text \<open>
  \<^verbatim>\<open>find_audio_processes\<close>. Python's \<^verbatim>\<open>int\<close> is the parameter \<open>to_int\<close>, with
  \<^const>\<open>None\<close> for a \<^verbatim>\<open>ValueError\<close>: one word that is not a number makes the whole
  comprehension raise, and the handler leaves \<^verbatim>\<open>processes\<close> as the empty list it was
  initialised with.
\<close>

definition find_audio_processes :: "(string \<Rightarrow> int option) \<Rightarrow> os \<Rightarrow> exn + pid list" where
  "find_audio_processes to_int w =
     (case pgrep_afplay w of
        Inl e \<Rightarrow> Inr []
      | Inr result \<Rightarrow>
          if returncode result = 0 then
            (case those (map (\<lambda>pid. to_int (py_strip pid))
                          (filter (\<lambda>pid. py_strip pid \<noteq> []) (py_split (stdout result)))) of
               Some processes \<Rightarrow> Inr processes
             | None \<Rightarrow> Inr [])
          else Inr [])"

text \<open>
  The loop shared by the three methods: \<^verbatim>\<open>os.kill\<close> on each process id in turn, the
  counter incremented after each call that returns, \<^verbatim>\<open>except OSError: pass\<close> for one
  that raises. Any other exception would leave the method.
\<close>

fun signal_each :: "signal \<Rightarrow> pid list \<Rightarrow> nat \<Rightarrow> os \<Rightarrow> exn + (nat \<times> os)" where
  "signal_each sg [] n w = Inr (n, w)"
| "signal_each sg (p # ps) n w =
     (case os_kill p sg w of
        Inr w' \<Rightarrow> signal_each sg ps (n + 1) w'
      | Inl e \<Rightarrow> if is_OSError e then signal_each sg ps n w else Inl e)"

text \<open>
  The machine the loop leaves behind, in closed form: each listed process that exists has
  received the signal, and nothing else has changed.
\<close>

definition signalled :: "signal \<Rightarrow> pid list \<Rightarrow> os \<Rightarrow> os" where
  "signalled sg ps w =
     w\<lparr>procs := (\<lambda>q. if q \<in> set ps then Option.bind (procs w q) (deliver sg) else procs w q)\<rparr>"

text \<open>
  \<^verbatim>\<open>subprocess.run(['killall', name], capture_output=True)\<close>: raises when \<^verbatim>\<open>killall\<close>
  cannot be launched; otherwise every process with that executable name receives
  \<^verbatim>\<open>SIGTERM\<close>, and the exit status is not looked at.
\<close>

definition run_killall :: "string \<Rightarrow> os \<Rightarrow> exn + os" where
  "run_killall name w =
     (if killall_present w
      then Inr (w\<lparr>procs := (\<lambda>p. case procs w p of
                                    None \<Rightarrow> None
                                  | Some pr \<Rightarrow>
                                      if exe pr = name then deliver SIGTERM pr
                                      else Some pr)\<rparr>)
      else Inl FileNotFoundError)"

text \<open>"Method 2" of \<^verbatim>\<open>stop_all_audio\<close>: three calls in one \<^verbatim>\<open>try\<close>, a bare
  \<^verbatim>\<open>except: pass\<close> around them.\<close>

definition killall_sweep :: "os \<Rightarrow> os" where
  "killall_sweep w =
     (case run_killall ''afplay'' w of
        Inl e \<Rightarrow> w
      | Inr w1 \<Rightarrow>
          (case run_killall ''aplay'' w1 of
             Inl e \<Rightarrow> w1
           | Inr w2 \<Rightarrow>
               (case run_killall ''paplay'' w2 of
                  Inl e \<Rightarrow> w2
                | Inr w3 \<Rightarrow> w3)))"

definition stop_all_audio :: "(string \<Rightarrow> int option) \<Rightarrow> os \<Rightarrow> exn + (bool \<times> os)" where
  "stop_all_audio to_int w =
     (case find_audio_processes to_int w of
        Inl e \<Rightarrow> Inl e
      | Inr audio_processes \<Rightarrow>
          (case signal_each SIGTERM audio_processes 0 w of
             Inl e \<Rightarrow> Inl e
           | Inr (stopped_count, w') \<Rightarrow> Inr (stopped_count > 0, killall_sweep w')))"

definition pause_all_audio :: "(string \<Rightarrow> int option) \<Rightarrow> os \<Rightarrow> exn + (bool \<times> os)" where
  "pause_all_audio to_int w =
     (case find_audio_processes to_int w of
        Inl e \<Rightarrow> Inl e
      | Inr audio_processes \<Rightarrow>
          (case signal_each SIGSTOP audio_processes 0 w of
             Inl e \<Rightarrow> Inl e
           | Inr (paused_count, w') \<Rightarrow> Inr (paused_count > 0, w')))"

definition resume_all_audio :: "(string \<Rightarrow> int option) \<Rightarrow> os \<Rightarrow> exn + (bool \<times> os)" where
  "resume_all_audio to_int w =
     (case find_audio_processes to_int w of
        Inl e \<Rightarrow> Inl e
      | Inr audio_processes \<Rightarrow>
          (case signal_each SIGCONT audio_processes 0 w of
             Inl e \<Rightarrow> Inl e
           | Inr (resumed_count, w') \<Rightarrow> Inr (resumed_count > 0, w')))"

text \<open>
  An instance of \<open>to_int\<close> for the examples: the unsigned decimal numerals that
  \<^verbatim>\<open>pgrep\<close> prints, one per line.
\<close>

definition digit_val :: "char \<Rightarrow> nat option" where
  "digit_val c =
     (let n = (of_char c :: nat) in if 48 \<le> n \<and> n \<le> 57 then Some (n - 48) else None)"

fun dec_digits :: "string \<Rightarrow> nat \<Rightarrow> nat option" where
  "dec_digits [] acc = Some acc"
| "dec_digits (c # cs) acc =
     (case digit_val c of None \<Rightarrow> None | Some d \<Rightarrow> dec_digits cs (10 * acc + d))"

definition dec_int :: "string \<Rightarrow> int option" where
  "dec_int s = (if s = [] then None else map_option int (dec_digits s 0))"

section \<open>\<^verbatim>\<open>fast_tts.py\<close>: the text handed to the speech synthesis\<close>

text \<open>
  \<^verbatim>\<open>str.replace(old, new)\<close>: the occurrences of \<open>old\<close> are replaced from left to
  right without overlap; an empty \<open>old\<close> matches before every character and at the
  end.
\<close>

function replace_from :: "string \<Rightarrow> string \<Rightarrow> string \<Rightarrow> string" where
  "replace_from old new [] = []"
| "replace_from old new (c # cs) =
     (if old \<noteq> [] \<and> take (length old) (c # cs) = old
      then new @ replace_from old new (drop (length old) (c # cs))
      else c # replace_from old new cs)"
  by pat_completeness auto
termination
  by (relation "measure (\<lambda>(old, new, s). length s)") auto

definition py_replace :: "string \<Rightarrow> string \<Rightarrow> string \<Rightarrow> string" where
  "py_replace old new s =
     (if old = [] then new @ concat (map (\<lambda>c. c # new) s) else replace_from old new s)"

text \<open>Lines 51 to 54 of \<^verbatim>\<open>fast_read\<close>, "quick content cleanup for speech".\<close>

definition cleanup :: "string \<Rightarrow> string" where
  "cleanup content =
     py_replace ''-'' '' ''
       (py_replace ''*'' []
          (py_replace ''#'' []
             (py_replace ''```'' '' code block '' content)))"

definition max_chunk_size :: nat where
  "max_chunk_size = 4000"

text \<open>Lines 59 to 63: the test is on the length of the cleaned text.\<close>

definition truncate_content :: "string \<Rightarrow> string" where
  "truncate_content content =
     (if length content > max_chunk_size
      then take max_chunk_size content @ ''... Content truncated for TTS playback.''
      else content)"

text \<open>
  The value of \<^verbatim>\<open>content\<close> passed as \<^verbatim>\<open>input=\<close> to
  \<^verbatim>\<open>client.audio.speech.create\<close>, as a function of the text read from the file.
  \<^verbatim>\<open>fast_read\<close> returns before any call when the text is blank (line 25):
  that is \<^const>\<open>None\<close>.
\<close>

definition speech_input :: "string \<Rightarrow> string option" where
  "speech_input content =
     (if py_strip content = [] then None
      else Some (truncate_content (cleanup content)))"

section \<open>\<^verbatim>\<open>claude-code-hook.py\<close>: which files are read aloud\<close>

text \<open>
  \<^verbatim>\<open>Path(file_path).name\<close> on a POSIX path: the last component, where empty components
  and \<^verbatim>\<open>.\<close> do not count; the empty string when there is none.
\<close>

fun split_on :: "char \<Rightarrow> string \<Rightarrow> string \<Rightarrow> string list" where
  "split_on sep [] part = [part]"
| "split_on sep (c # cs) part =
     (if c = sep then part # split_on sep cs [] else split_on sep cs (part @ [c]))"

definition path_name :: "string \<Rightarrow> string" where
  "path_name file_path =
     (let parts = filter (\<lambda>part. part \<noteq> [] \<and> part \<noteq> ''.'') (split_on CHR ''/'' file_path [])
      in if parts = [] then [] else last parts)"

text \<open>\<^verbatim>\<open>str.lower()\<close> on the code points below 256: the capital letters are
  \<^verbatim>\<open>A\<close> to \<^verbatim>\<open>Z\<close> and the code points 192 to 222 without the multiplication sign 215.\<close>

definition lower_char :: "char \<Rightarrow> char" where
  "lower_char c =
     (let n = (of_char c :: nat)
      in if (65 \<le> n \<and> n \<le> 90) \<or> (192 \<le> n \<and> n \<le> 222 \<and> n \<noteq> 215)
         then char_of (n + 32) else c)"

definition py_lower :: "string \<Rightarrow> string" where
  "py_lower s = map lower_char s"

text \<open>\<^verbatim>\<open>pattern in filename\<close>: \<open>pattern\<close> occurs in \<open>filename\<close> as a contiguous
  substring.\<close>

fun py_in :: "string \<Rightarrow> string \<Rightarrow> bool" where
  "py_in pattern [] = (pattern = [])"
| "py_in pattern (c # cs) = (take (length pattern) (c # cs) = pattern \<or> py_in pattern cs)"

definition auto_read_patterns :: "string list" where
  "auto_read_patterns =
     [''implementation-summary'', ''summary'', ''readme'', ''implementation'',
      ''todo'', ''plan'', ''requirements'']"

text \<open>\<^verbatim>\<open>should_auto_read\<close>; \<open>path_exists\<close> is \<^verbatim>\<open>os.path.exists\<close> on the file system
  of the moment.\<close>

definition should_auto_read :: "(string \<Rightarrow> bool) \<Rightarrow> string \<Rightarrow> bool" where
  "should_auto_read path_exists file_path =
     (if file_path = [] \<or> \<not> path_exists file_path then False
      else (let filename = py_lower (path_name file_path)
            in list_ex (\<lambda>pattern. py_in pattern filename) auto_read_patterns))"

text \<open>The six keywords of the specification.\<close>

definition spec_keywords :: "string list" where
  "spec_keywords = [''summary'', ''readme'', ''implementation'', ''todo'', ''plan'', ''requirements'']"

section \<open>Machines and sessions for the examples\<close>

text \<open>A machine where the processes \<open>ps\<close> run the player and \<^verbatim>\<open>pgrep afplay\<close> prints
  \<open>out\<close> with exit status \<open>rc\<close>.\<close>

definition machine :: "pid list \<Rightarrow> int \<Rightarrow> string \<Rightarrow> os" where
  "machine ps rc out =
     \<lparr>procs = (\<lambda>p. if p \<in> set ps then Some \<lparr>exe = ''afplay'', status = Running, pending_term = False\<rparr> else None),
      pgrep_afplay = Inr \<lparr>returncode = rc, stdout = out\<rparr>,
      killall_present = True, afplay_present = True, next_pid = 1000\<rparr>"

text \<open>A controller that tracks process \<open>p\<close>, paused or not.\<close>

definition session :: "pid \<Rightarrow> bool \<Rightarrow> controller" where
  "session p paused = \<lparr>afplay_pid = Some p, is_playing = True, is_paused = paused\<rparr>"

section \<open>Properties of the playback controller\<close>

subsection \<open>Signals and the process table\<close>

lemma os_kill_dead: "\<not> alive w p \<Longrightarrow> os_kill p sg w = Inl ProcessLookupError"
  by (simp add: os_kill_def alive_def)

lemma os_kill_cases:
  "(\<not> alive w p \<and> os_kill p sg w = Inl ProcessLookupError) \<or>
   (\<exists>pr. procs w p = Some pr \<and> os_kill p sg w = Inr (w\<lparr>procs := (procs w)(p := deliver sg pr)\<rparr>))"
  by (auto simp: os_kill_def alive_def split: option.splits)

lemma deliver_twice: "deliver sg pr = Some pr' \<Longrightarrow> deliver sg pr' = Some pr'"
  by (cases sg) (auto split: if_splits)

lemma deliver_exe: "deliver sg pr = Some pr' \<Longrightarrow> exe pr' = exe pr"
  by (cases sg) (auto split: if_splits)

subsection \<open>Calls that do nothing\<close>

lemma stop_untracked: "\<not> tracked c \<Longrightarrow> stop_playback c w = Inr (False, c, w)"
  by (simp add: stop_playback_def tracked_def)

lemma signal_to_dead_process:
  "afplay_pid c = Some p \<Longrightarrow> \<not> alive w p \<Longrightarrow>
   pause_playback c w = Inr (False, c, w) \<and> resume_playback c w = Inr (False, c, w)
   \<and> stop_playback c w = Inr (False, c, w)"
  by (simp add: pause_playback_def resume_playback_def stop_playback_def os_kill_dead)

lemma apply_op_untracked:
  "\<not> tracked c \<Longrightarrow> \<not> is_Start a \<Longrightarrow> apply_op a c w = Inr (False, c, w)"
  by (cases a) (auto simp: stop_untracked pause_playback_def resume_playback_def tracked_def)

lemma run_ops_untracked:
  "\<not> tracked c \<Longrightarrow> \<forall>x \<in> set ops. \<not> is_Start (fst x) \<Longrightarrow> run_ops ops c = Inr c"
  by (induction ops) (auto simp: apply_op_untracked)

lemma stop_twice:
  "\<exists>r c' w'. stop_playback c w = Inr (r, c', w') \<and> stop_playback c' w' = Inr (False, c', w')"
  by (cases "os_kill (the (afplay_pid c)) SIGTERM w") (auto simp: stop_playback_def)

lemma stop_no_new_session:
  "\<exists>r c' w'. stop_playback c w = Inr (r, c', w') \<and> (tracked c' \<longrightarrow> c' = c)"
  by (cases "os_kill (the (afplay_pid c)) SIGTERM w") (auto simp: stop_playback_def tracked_def)

lemma stops_no_new_session:
  "\<exists>c'. run_ops (map (Pair Stop) ws) c = Inr c' \<and> (tracked c' \<longrightarrow> c' = c)"
proof (induction ws arbitrary: c)
  case Nil
  then show ?case by simp
next
  case (Cons w ws)
  obtain r c1 w1 where first: "stop_playback c w = Inr (r, c1, w1)"
    and kept: "tracked c1 \<longrightarrow> c1 = c"
    using stop_no_new_session by blast
  obtain c' where rest: "run_ops (map (Pair Stop) ws) c1 = Inr c'"
    and kept': "tracked c' \<longrightarrow> c' = c1"
    using Cons.IH by blast
  have "\<not> tracked c1 \<Longrightarrow> c' = c1"
    using rest run_ops_untracked[of c1 "map (Pair Stop) ws"] by auto
  with kept kept' have "tracked c' \<longrightarrow> c' = c" by metis
  with first rest show ?case by simp
qed

subsection \<open>The claims about \<^verbatim>\<open>TTSController\<close>\<close>

text \<open>
  C1, as the code has it. For a session in state \<open>PLAYING\<close> (resp. \<open>PAUSED\<close>) whose
  process no longer exists when \<^verbatim>\<open>pause_playback\<close> (resp. \<^verbatim>\<open>resume_playback\<close>) sends
  its signal, the bare \<^verbatim>\<open>except\<close> turns the \<^verbatim>\<open>ProcessLookupError\<close> into the return
  value \<^verbatim>\<open>False\<close>, and no attribute of the controller changes: the session stays
  \<open>PLAYING\<close> (resp. \<open>PAUSED\<close>) and keeps its process id.
\<close>

theorem pause_resume_process_gone:
  "(PLAYING c \<and> afplay_pid c = Some p \<and> \<not> alive w p \<longrightarrow>
      pause_playback c w = Inr (False, c, w))
   \<and> (PAUSED c \<and> afplay_pid c = Some p \<and> \<not> alive w p \<longrightarrow>
      resume_playback c w = Inr (False, c, w))"
  by (simp add: signal_to_dead_process)

text \<open>The theorem at a session that tracks process 42 on a machine without processes.\<close>

theorem pause_resume_process_gone_witness:
  "PLAYING (session 42 False) \<and> PAUSED (session 42 True)
   \<and> afplay_pid (session 42 False) = Some 42 \<and> afplay_pid (session 42 True) = Some 42
   \<and> \<not> alive (machine [] 1 []) 42
   \<and> pause_playback (session 42 False) (machine [] 1 []) =
       Inr (False, session 42 False, machine [] 1 [])
   \<and> resume_playback (session 42 True) (machine [] 1 []) =
       Inr (False, session 42 True, machine [] 1 [])"
proof -
  have h: "PLAYING (session 42 False)" "PAUSED (session 42 True)"
    "afplay_pid (session 42 False) = Some 42" "afplay_pid (session 42 True) = Some 42"
    "\<not> alive (machine [] 1 []) 42"
    by (simp_all add: PLAYING_def PAUSED_def session_def alive_def machine_def)
  with pause_resume_process_gone[of "session 42 False" 42 "machine [] 1 []"]
    pause_resume_process_gone[of "session 42 True" 42 "machine [] 1 []"]
  show ?thesis by simp
qed

text \<open>
  C1 as stated fails: after the failed \<^verbatim>\<open>pause_playback\<close> the controller is the one
  it was, still \<open>PLAYING\<close> with its process id tracked, and not in a state without a
  session; the same after the failed \<^verbatim>\<open>resume_playback\<close>, still \<open>PAUSED\<close>. The result
  is the plain \<^verbatim>\<open>False\<close> of a call that was not allowed.
\<close>

theorem process_gone_not_finished:
  "\<not> alive (machine [] 1 []) 42
   \<and> pause_playback (session 42 False) (machine [] 1 []) =
       Inr (False, session 42 False, machine [] 1 [])
   \<and> PLAYING (session 42 False) \<and> tracked (session 42 False)
   \<and> pause_playback init_controller (machine [] 1 []) =
       Inr (False, init_controller, machine [] 1 [])
   \<and> resume_playback (session 42 True) (machine [] 1 []) =
       Inr (False, session 42 True, machine [] 1 [])
   \<and> PAUSED (session 42 True) \<and> tracked (session 42 True)"
  by (simp add: PLAYING_def PAUSED_def tracked_def session_def machine_def alive_def
      init_controller_def pause_playback_def resume_playback_def os_kill_def)

text \<open>
  C2. \<^verbatim>\<open>stop_playback\<close> is idempotent. When no process id is tracked, and also when
  the tracked process has already gone, the call returns \<^verbatim>\<open>False\<close> and changes
  nothing. A second call right after any call returns \<^verbatim>\<open>False\<close> and changes
  nothing. Whatever the machine does in between, a sequence of calls of
  \<^verbatim>\<open>stop_playback\<close> never raises and ends either without a session or with the
  controller exactly as it was; and once no session is tracked, no sequence of calls
  without \<^verbatim>\<open>start_playback\<close> brings the controller back to \<open>PLAYING\<close> or \<open>PAUSED\<close>.
\<close>

theorem stop_idempotent:
  "(\<not> tracked c \<longrightarrow> stop_playback c w = Inr (False, c, w))
   \<and> (afplay_pid c = Some p \<and> \<not> alive w p \<longrightarrow> stop_playback c w = Inr (False, c, w))
   \<and> (\<exists>r c' w'. stop_playback c w = Inr (r, c', w')
         \<and> stop_playback c' w' = Inr (False, c', w'))
   \<and> (\<forall>ws. \<exists>c'. run_ops (map (Pair Stop) ws) c = Inr c' \<and> (tracked c' \<longrightarrow> c' = c))
   \<and> (\<forall>ops. \<not> tracked c \<and> (\<forall>x \<in> set ops. \<not> is_Start (fst x)) \<longrightarrow>
         run_ops ops c = Inr c \<and> \<not> PLAYING c \<and> \<not> PAUSED c)"
proof -
  have "\<not> tracked c \<longrightarrow> \<not> PLAYING c \<and> \<not> PAUSED c"
    by (simp add: tracked_def PLAYING_def PAUSED_def)
  then show ?thesis
    using stop_untracked signal_to_dead_process stop_twice stops_no_new_session
      run_ops_untracked
    by blast
qed

text \<open>The theorem at the initial controller, at a session whose process has gone, and at
  a run without \<^verbatim>\<open>start_playback\<close>.\<close>

theorem stop_idempotent_witness:
  "\<not> tracked init_controller
   \<and> stop_playback init_controller (machine [] 1 []) =
       Inr (False, init_controller, machine [] 1 [])
   \<and> afplay_pid (session 42 True) = Some 42 \<and> \<not> alive (machine [] 1 []) 42
   \<and> stop_playback (session 42 True) (machine [] 1 []) =
       Inr (False, session 42 True, machine [] 1 [])
   \<and> \<not> is_Start Stop \<and> \<not> is_Start Pause \<and> \<not> is_Start Resume
   \<and> run_ops [(Stop, machine [] 1 []), (Pause, machine [42] 0 ''42''),
              (Resume, machine [42] 0 ''42''), (Stop, machine [42] 0 ''42'')]
       init_controller = Inr init_controller"
proof -
  have h: "\<not> tracked init_controller" "afplay_pid (session 42 True) = Some 42"
    "\<not> alive (machine [] 1 []) 42"
    by (simp_all add: tracked_def init_controller_def session_def alive_def machine_def)
  have n: "\<forall>x \<in> set [(Stop, machine [] 1 []), (Pause, machine [42] 0 ''42''),
                  (Resume, machine [42] 0 ''42''), (Stop, machine [42] 0 ''42'')].
         \<not> is_Start (fst x)"
    by simp
  from stop_idempotent[of init_controller "machine [] 1 []" 42] h n
  have a: "stop_playback init_controller (machine [] 1 []) =
             Inr (False, init_controller, machine [] 1 [])"
    and b: "run_ops [(Stop, machine [] 1 []), (Pause, machine [42] 0 ''42''),
              (Resume, machine [42] 0 ''42''), (Stop, machine [42] 0 ''42'')]
       init_controller = Inr init_controller"
    by blast+
  from stop_idempotent[of "session 42 True" "machine [] 1 []" 42] h
  have c: "stop_playback (session 42 True) (machine [] 1 []) =
       Inr (False, session 42 True, machine [] 1 [])"
    by blast
  have "\<not> is_Start Stop \<and> \<not> is_Start Pause \<and> \<not> is_Start Resume" by simp
  with h a b c show ?thesis by blast
qed

text \<open>
  C4. For every session in state \<open>PLAYING\<close> whose process \<open>p\<close> is alive,
  \<^verbatim>\<open>pause_playback\<close> returns \<^verbatim>\<open>True\<close> and leaves the session \<open>PAUSED\<close> with the
  process still there; and on every later machine where \<open>p\<close> is alive,
  \<^verbatim>\<open>resume_playback\<close> returns \<^verbatim>\<open>True\<close> and gives back the controller \<open>c\<close> of the
  start: in state \<open>PLAYING\<close>, with the same process id.
\<close>

theorem pause_then_resume:
  assumes "PLAYING c" and "afplay_pid c = Some p" and "alive w p"
  shows "\<exists>c1 w1. pause_playback c w = Inr (True, c1, w1) \<and> PAUSED c1 \<and> alive w1 p
           \<and> afplay_pid c1 = Some p
           \<and> (\<forall>w2. alive w2 p \<longrightarrow>
                (\<exists>c2 w3. resume_playback c1 w2 = Inr (True, c2, w3) \<and> c2 = c
                   \<and> PLAYING c2 \<and> afplay_pid c2 = afplay_pid c))"
  using assms
  by (auto simp: PLAYING_def PAUSED_def pause_playback_def resume_playback_def os_kill_def
      alive_def split: option.splits)

text \<open>The theorem at a session that plays process 42, alive on the machine.\<close>

theorem pause_then_resume_witness:
  "PLAYING (session 42 False) \<and> afplay_pid (session 42 False) = Some 42
   \<and> alive (machine [42] 0 ''42'') 42
   \<and> (\<exists>w1. pause_playback (session 42 False) (machine [42] 0 ''42'') =
              Inr (True, session 42 True, w1)
         \<and> (\<exists>w3. resume_playback (session 42 True) w1 = Inr (True, session 42 False, w3)))"
proof -
  have h: "PLAYING (session 42 False)" "afplay_pid (session 42 False) = Some 42"
    "alive (machine [42] 0 ''42'') 42"
    by (simp_all add: PLAYING_def session_def alive_def machine_def)
  from pause_then_resume[OF h]
  obtain c1 w1 where p: "pause_playback (session 42 False) (machine [42] 0 ''42'') =
      Inr (True, c1, w1)" and a: "alive w1 42"
    and r: "\<forall>w2. alive w2 42 \<longrightarrow>
              (\<exists>c2 w3. resume_playback c1 w2 = Inr (True, c2, w3) \<and> c2 = session 42 False
                 \<and> PLAYING c2 \<and> afplay_pid c2 = afplay_pid (session 42 False))"
    by blast
  have "c1 = session 42 True"
    using p h by (auto simp: pause_playback_def session_def split: if_splits sum.splits)
  with p a r h show ?thesis by blast
qed

text \<open>
  C5, as the code has it. From state \<open>PAUSED\<close>, when the process is there to receive the
  signal, \<^verbatim>\<open>resume_playback\<close> returns \<^verbatim>\<open>True\<close> and the session is \<open>PLAYING\<close>;
  calling it again, on any machine, returns \<^verbatim>\<open>False\<close> and changes nothing.
  \<^verbatim>\<open>pause_playback\<close> outside \<open>PLAYING\<close> and \<^verbatim>\<open>resume_playback\<close> outside \<open>PAUSED\<close>
  return \<^verbatim>\<open>False\<close> and leave the controller (flags and process id) and the machine as
  they were.
\<close>

theorem resume_twice_and_illegal_calls:
  "(PAUSED c \<and> afplay_pid c = Some p \<and> alive w p \<longrightarrow>
      (\<exists>c1 w1. resume_playback c w = Inr (True, c1, w1) \<and> PLAYING c1
         \<and> afplay_pid c1 = afplay_pid c
         \<and> (\<forall>w2. resume_playback c1 w2 = Inr (False, c1, w2))))
   \<and> (\<not> PLAYING c \<longrightarrow> pause_playback c w = Inr (False, c, w))
   \<and> (\<not> PAUSED c \<longrightarrow> resume_playback c w = Inr (False, c, w))"
  by (auto simp: PLAYING_def PAUSED_def pause_playback_def resume_playback_def os_kill_def
      alive_def split: option.splits)

text \<open>The theorem at a paused session whose process is alive, and at the initial
  controller.\<close>

theorem resume_twice_and_illegal_calls_witness:
  "PAUSED (session 42 True) \<and> afplay_pid (session 42 True) = Some 42
   \<and> alive (machine [42] 0 ''42'') 42
   \<and> (\<exists>w1. resume_playback (session 42 True) (machine [42] 0 ''42'') =
              Inr (True, session 42 False, w1))
   \<and> resume_playback (session 42 False) (machine [42] 0 ''42'') =
       Inr (False, session 42 False, machine [42] 0 ''42'')
   \<and> \<not> PLAYING init_controller \<and> \<not> PAUSED init_controller
   \<and> pause_playback init_controller (machine [42] 0 ''42'') =
       Inr (False, init_controller, machine [42] 0 ''42'')
   \<and> resume_playback init_controller (machine [42] 0 ''42'') =
       Inr (False, init_controller, machine [42] 0 ''42'')"
proof -
  have h: "PAUSED (session 42 True)" "afplay_pid (session 42 True) = Some 42"
    "alive (machine [42] 0 ''42'') 42" "\<not> PLAYING init_controller"
    "\<not> PAUSED init_controller"
    by (simp_all add: PLAYING_def PAUSED_def session_def alive_def machine_def
        init_controller_def)
  from resume_twice_and_illegal_calls[of "session 42 True" 42 "machine [42] 0 ''42''"] h
  obtain c1 w1 where r: "resume_playback (session 42 True) (machine [42] 0 ''42'') =
      Inr (True, c1, w1)"
    and again: "\<forall>w2. resume_playback c1 w2 = Inr (False, c1, w2)"
    by blast
  have c1: "c1 = session 42 False"
    using r by (auto simp: resume_playback_def session_def split: if_splits sum.splits)
  from resume_twice_and_illegal_calls[of init_controller 42 "machine [42] 0 ''42''"] h
  have i: "pause_playback init_controller (machine [42] 0 ''42'') =
       Inr (False, init_controller, machine [42] 0 ''42'')"
    "resume_playback init_controller (machine [42] 0 ''42'') =
       Inr (False, init_controller, machine [42] 0 ''42'')"
    by blast+
  from h r again c1 i show ?thesis by blast
qed

text \<open>
  C5 as stated fails in its first sentence: from state \<open>PAUSED\<close>, when the process has
  gone, \<^verbatim>\<open>resume_playback\<close> returns \<^verbatim>\<open>False\<close> and the session is still \<open>PAUSED\<close>,
  not \<open>PLAYING\<close>.
\<close>

theorem resume_process_gone_stays_paused:
  "PAUSED (session 42 True)
   \<and> resume_playback (session 42 True) (machine [] 1 []) =
       Inr (False, session 42 True, machine [] 1 [])
   \<and> \<not> PLAYING (session 42 True)"
  by (simp add: PLAYING_def PAUSED_def session_def machine_def resume_playback_def
      os_kill_def)

lemma apply_op_inv:
  "is_paused c \<longrightarrow> is_playing c \<and> tracked c \<Longrightarrow>
   \<exists>r c' w'. apply_op a c w = Inr (r, c', w') \<and> (is_paused c' \<longrightarrow> is_playing c' \<and> tracked c')"
  by (cases a)
    (auto simp: start_playback_def pause_playback_def resume_playback_def stop_playback_def
      tracked_def split: sum.splits)

lemma run_ops_inv:
  "is_paused c \<longrightarrow> is_playing c \<and> tracked c \<Longrightarrow>
   \<exists>c'. run_ops ops c = Inr c' \<and> (is_paused c' \<longrightarrow> is_playing c' \<and> tracked c')"
proof (induction ops arbitrary: c)
  case Nil
  then show ?case by simp
next
  case (Cons x ops)
  obtain a w where x: "x = (a, w)" by (cases x)
  obtain r c1 w1 where step: "apply_op a c w = Inr (r, c1, w1)"
    and inv: "is_paused c1 \<longrightarrow> is_playing c1 \<and> tracked c1"
    using apply_op_inv[OF Cons.prems] by blast
  from Cons.IH[OF inv] step x show ?case by simp
qed

text \<open>
  C10. In every state that the controller reaches from its initial state by a sequence of
  calls of \<^verbatim>\<open>start_playback\<close>, \<^verbatim>\<open>pause_playback\<close>, \<^verbatim>\<open>resume_playback\<close> and
  \<^verbatim>\<open>stop_playback\<close>, whatever the machine is at each call, the run returns and
  \<^verbatim>\<open>is_paused\<close> implies \<^verbatim>\<open>is_playing\<close> and a tracked process id: the controller
  is never paused without being in a tracked playing session (in state \<open>PAUSED\<close>).
\<close>

theorem paused_implies_playing:
  "\<exists>c. run_ops ops init_controller = Inr c
     \<and> (is_paused c \<longrightarrow> is_playing c \<and> tracked c \<and> PAUSED c)"
proof -
  have "is_paused init_controller \<longrightarrow> is_playing init_controller \<and> tracked init_controller"
    by (simp add: init_controller_def)
  from run_ops_inv[OF this, of ops] show ?thesis
    by (auto simp: PAUSED_def tracked_def)
qed

text \<open>The theorem at a run that starts a playback and pauses it: the controller is
  paused, playing, and tracks the process it started.\<close>

theorem paused_implies_playing_witness:
  "run_ops [(Start ''notes.mp3'', machine [] 1 []), (Pause, machine [1000] 0 ''1000'')]
     init_controller = Inr (session 1000 True)
   \<and> is_paused (session 1000 True) \<and> is_playing (session 1000 True)
   \<and> tracked (session 1000 True) \<and> PAUSED (session 1000 True)"
proof -
  have r: "run_ops [(Start ''notes.mp3'', machine [] 1 []), (Pause, machine [1000] 0 ''1000'')]
     init_controller = Inr (session 1000 True)"
    by (simp add: start_playback_def popen_afplay_def pause_playback_def os_kill_def
        machine_def init_controller_def session_def)
  have p: "is_paused (session 1000 True)" by (simp add: session_def)
  from paused_implies_playing[of "[(Start ''notes.mp3'', machine [] 1 []),
      (Pause, machine [1000] 0 ''1000'')]"] r p
  show ?thesis by simp
qed

section \<open>Properties of discovery and of the signals to every player\<close>

lemma those_map_None: "(those (map f xs) = None) = (\<exists>x \<in> set xs. f x = None)"
  by (induction xs) (auto split: option.splits)

lemma find_audio_processes_total: "\<exists>ps. find_audio_processes to_int w = Inr ps"
  by (simp add: find_audio_processes_def split: sum.splits option.splits)

lemma find_audio_processes_bad_word:
  assumes "pgrep_afplay w = Inr r"
    and "\<exists>t \<in> set (py_split (stdout r)). py_strip t \<noteq> [] \<and> to_int (py_strip t) = None"
  shows "find_audio_processes to_int w = Inr []"
proof -
  from assms(2)
  have "those (map (\<lambda>pid. to_int (py_strip pid))
          (filter (\<lambda>pid. py_strip pid \<noteq> []) (py_split (stdout r)))) = None"
    unfolding those_map_None by auto
  with assms(1) show ?thesis by (simp add: find_audio_processes_def)
qed

text \<open>The loop never raises, ends in the machine \<^const>\<open>signalled\<close>, and its counter has
  moved exactly when one of the listed processes was there.\<close>

lemma signal_each_spec:
  "\<exists>n'. signal_each sg ps n w = Inr (n', signalled sg ps w) \<and> n \<le> n'
        \<and> (n < n') = (\<exists>p \<in> set ps. alive w p)"
proof (induction ps arbitrary: n w)
  case Nil
  then show ?case by (simp add: signalled_def)
next
  case (Cons p ps)
  from os_kill_cases[of w p sg] show ?case
  proof
    assume gone: "\<not> alive w p \<and> os_kill p sg w = Inl ProcessLookupError"
    obtain n' where rest: "signal_each sg ps n w = Inr (n', signalled sg ps w)" "n \<le> n'"
      "(n < n') = (\<exists>p \<in> set ps. alive w p)"
      using Cons.IH[of n w] by blast
    have "signalled sg (p # ps) w = signalled sg ps w"
      using gone by (auto simp: signalled_def alive_def fun_eq_iff)
    with gone rest show ?thesis by auto
  next
    assume "\<exists>pr. procs w p = Some pr
      \<and> os_kill p sg w = Inr (w\<lparr>procs := (procs w)(p := deliver sg pr)\<rparr>)"
    then obtain pr where pr: "procs w p = Some pr"
      and sent: "os_kill p sg w = Inr (w\<lparr>procs := (procs w)(p := deliver sg pr)\<rparr>)"
      by blast
    let ?w1 = "w\<lparr>procs := (procs w)(p := deliver sg pr)\<rparr>"
    obtain n' where rest: "signal_each sg ps (n + 1) ?w1 = Inr (n', signalled sg ps ?w1)"
      "n + 1 \<le> n'"
      using Cons.IH[of "n + 1" ?w1] by blast
    have "signalled sg ps ?w1 = signalled sg (p # ps) w"
      using pr by (cases "deliver sg pr") (auto simp: signalled_def fun_eq_iff deliver_twice)
    with sent rest pr show ?thesis by (auto simp: alive_def)
  qed
qed

lemma signalled_all_gone: "\<forall>p \<in> set ps. \<not> alive w p \<Longrightarrow> signalled sg ps w = w"
proof -
  assume "\<forall>p \<in> set ps. \<not> alive w p"
  then have "(\<lambda>q. if q \<in> set ps then Option.bind (procs w q) (deliver sg) else procs w q)
      = procs w"
    by (auto simp: alive_def fun_eq_iff)
  then show ?thesis by (simp add: signalled_def)
qed

lemma killall_sweep_procs:
  "procs (killall_sweep w) q =
     (if killall_present w
      then (case procs w q of
              None \<Rightarrow> None
            | Some pr \<Rightarrow>
                if exe pr \<in> {''afplay'', ''aplay'', ''paplay''} then deliver SIGTERM pr
                else Some pr)
      else procs w q)"
  by (auto simp: killall_sweep_def run_killall_def split: option.splits)

lemma all_audio_total:
  "(\<exists>r. stop_all_audio to_int w = Inr r) \<and> (\<exists>r. pause_all_audio to_int w = Inr r)
   \<and> (\<exists>r. resume_all_audio to_int w = Inr r)"
proof -
  obtain ps where f: "find_audio_processes to_int w = Inr ps"
    using find_audio_processes_total by blast
  obtain a b c where "signal_each SIGTERM ps 0 w = Inr (a, signalled SIGTERM ps w)"
    "signal_each SIGSTOP ps 0 w = Inr (b, signalled SIGSTOP ps w)"
    "signal_each SIGCONT ps 0 w = Inr (c, signalled SIGCONT ps w)"
    using signal_each_spec[of _ ps 0 w] by metis
  with f show ?thesis
    by (simp add: stop_all_audio_def pause_all_audio_def resume_all_audio_def)
qed

lemma pause_resume_all_gone:
  assumes "find_audio_processes to_int w = Inr ps" and "\<forall>p \<in> set ps. \<not> alive w p"
  shows "pause_all_audio to_int w = Inr (False, w) \<and> resume_all_audio to_int w = Inr (False, w)"
proof -
  obtain b c where "signal_each SIGSTOP ps 0 w = Inr (b, signalled SIGSTOP ps w)"
    "(0 < b) = (\<exists>p \<in> set ps. alive w p)"
    "signal_each SIGCONT ps 0 w = Inr (c, signalled SIGCONT ps w)"
    "(0 < c) = (\<exists>p \<in> set ps. alive w p)"
    using signal_each_spec[of _ ps 0 w] by metis
  with assms show ?thesis
    by (simp add: pause_all_audio_def resume_all_audio_def signalled_all_gone)
qed

text \<open>
  C9. \<^verbatim>\<open>find_audio_processes\<close> never raises, and returns the empty list when the
  lookup fails: when \<^verbatim>\<open>pgrep\<close> cannot be run, when it exits with a status other than 0,
  and when a word of its output is not a number. No operation of the two controllers
  raises. When the process that \<^verbatim>\<open>TTSController\<close> tracks does not exist,
  \<^verbatim>\<open>pause_playback\<close>, \<^verbatim>\<open>resume_playback\<close> and \<^verbatim>\<open>stop_playback\<close> return
  \<^verbatim>\<open>False\<close> and change nothing; when none of the discovered processes exists,
  \<^verbatim>\<open>pause_all_audio\<close> and \<^verbatim>\<open>resume_all_audio\<close> do the same.
\<close>

theorem no_unhandled_fault:
  "(\<exists>ps. find_audio_processes to_int w = Inr ps)
   \<and> ((\<exists>e. pgrep_afplay w = Inl e) \<longrightarrow> find_audio_processes to_int w = Inr [])
   \<and> (\<forall>r. pgrep_afplay w = Inr r \<and> returncode r \<noteq> 0 \<longrightarrow>
          find_audio_processes to_int w = Inr [])
   \<and> (\<forall>r. pgrep_afplay w = Inr r \<and>
          (\<exists>t \<in> set (py_split (stdout r)). py_strip t \<noteq> [] \<and> to_int (py_strip t) = None) \<longrightarrow>
          find_audio_processes to_int w = Inr [])
   \<and> (\<exists>r. apply_op a c w = Inr r)
   \<and> (\<exists>r. stop_all_audio to_int w = Inr r) \<and> (\<exists>r. pause_all_audio to_int w = Inr r)
   \<and> (\<exists>r. resume_all_audio to_int w = Inr r)
   \<and> (afplay_pid c = Some p \<and> \<not> alive w p \<longrightarrow>
         pause_playback c w = Inr (False, c, w) \<and> resume_playback c w = Inr (False, c, w)
         \<and> stop_playback c w = Inr (False, c, w))
   \<and> (\<forall>ps. find_audio_processes to_int w = Inr ps \<and> (\<forall>p \<in> set ps. \<not> alive w p) \<longrightarrow>
         pause_all_audio to_int w = Inr (False, w) \<and> resume_all_audio to_int w = Inr (False, w))"
proof -
  have raised: "(\<exists>e. pgrep_afplay w = Inl e) \<longrightarrow> find_audio_processes to_int w = Inr []"
    by (auto simp: find_audio_processes_def)
  have status: "\<forall>r. pgrep_afplay w = Inr r \<and> returncode r \<noteq> 0 \<longrightarrow>
      find_audio_processes to_int w = Inr []"
    by (auto simp: find_audio_processes_def)
  have op: "\<exists>r. apply_op a c w = Inr r"
    by (cases a)
      (auto simp: start_playback_def pause_playback_def resume_playback_def stop_playback_def
        split: sum.splits)
  from raised status op show ?thesis
    using find_audio_processes_total find_audio_processes_bad_word all_audio_total
      signal_to_dead_process pause_resume_all_gone
    by blast
qed

text \<open>The theorem on a machine where \<^verbatim>\<open>pgrep\<close> cannot be run, on one where it finds
  nothing, on one where it prints a word that is not a number, and on one where it lists
  a process that has gone.\<close>

theorem no_unhandled_fault_witness:
  "find_audio_processes dec_int ((machine [] 1 [])\<lparr>pgrep_afplay := Inl FileNotFoundError\<rparr>) = Inr []
   \<and> returncode \<lparr>returncode = 1, stdout = []\<rparr> \<noteq> 0
   \<and> find_audio_processes dec_int (machine [] 1 []) = Inr []
   \<and> ''abc'' \<in> set (py_split ''12 abc'') \<and> py_strip ''abc'' \<noteq> []
   \<and> dec_int (py_strip ''abc'') = None
   \<and> find_audio_processes dec_int (machine [] 0 ''12 abc'') = Inr []
   \<and> afplay_pid (session 42 False) = Some 42 \<and> \<not> alive (machine [] 1 []) 42
   \<and> pause_playback (session 42 False) (machine [] 1 []) =
       Inr (False, session 42 False, machine [] 1 [])
   \<and> stop_playback (session 42 False) (machine [] 1 []) =
       Inr (False, session 42 False, machine [] 1 [])
   \<and> find_audio_processes dec_int (machine [] 0 ''42'') = Inr [42]
   \<and> pause_all_audio dec_int (machine [] 0 ''42'') = Inr (False, machine [] 0 ''42'')"
proof -
  have p1: "pgrep_afplay ((machine [] 1 [])\<lparr>pgrep_afplay := Inl FileNotFoundError\<rparr>)
      = Inl FileNotFoundError"
    by simp
  have p2: "pgrep_afplay (machine [] 1 []) = Inr \<lparr>returncode = 1, stdout = []\<rparr>"
    "returncode \<lparr>returncode = 1, stdout = []\<rparr> \<noteq> 0"
    by (simp_all add: machine_def)
  have p3: "pgrep_afplay (machine [] 0 ''12 abc'') = Inr \<lparr>returncode = 0, stdout = ''12 abc''\<rparr>"
    "stdout \<lparr>returncode = 0, stdout = ''12 abc''\<rparr> = ''12 abc''"
    "''abc'' \<in> set (py_split ''12 abc'')" "py_strip ''abc'' \<noteq> []"
    "dec_int (py_strip ''abc'') = None"
    by (simp_all add: machine_def py_split_def py_strip_def py_isspace_def dec_int_def
        digit_val_def)
  have p4: "afplay_pid (session 42 False) = Some 42" "\<not> alive (machine [] 1 []) 42"
    by (simp_all add: session_def alive_def machine_def)
  have p5: "find_audio_processes dec_int (machine [] 0 ''42'') = Inr [42]"
    "\<forall>p \<in> set [42]. \<not> alive (machine [] 0 ''42'') p"
    by (simp_all add: find_audio_processes_def machine_def py_split_def py_strip_def
        py_isspace_def dec_int_def digit_val_def alive_def)
  have a: "find_audio_processes dec_int
      ((machine [] 1 [])\<lparr>pgrep_afplay := Inl FileNotFoundError\<rparr>) = Inr []"
    using no_unhandled_fault[of dec_int
        "(machine [] 1 [])\<lparr>pgrep_afplay := Inl FileNotFoundError\<rparr>" Stop init_controller 0] p1
    by blast
  have b: "find_audio_processes dec_int (machine [] 1 []) = Inr []"
    "pause_playback (session 42 False) (machine [] 1 []) =
       Inr (False, session 42 False, machine [] 1 [])"
    "stop_playback (session 42 False) (machine [] 1 []) =
       Inr (False, session 42 False, machine [] 1 [])"
    using no_unhandled_fault[of dec_int "machine [] 1 []" Stop "session 42 False" 42] p2 p4
    by blast+
  have c: "find_audio_processes dec_int (machine [] 0 ''12 abc'') = Inr []"
    using no_unhandled_fault[of dec_int "machine [] 0 ''12 abc''" Stop init_controller 0] p3
    by metis
  have d: "pause_all_audio dec_int (machine [] 0 ''42'') = Inr (False, machine [] 0 ''42'')"
    using no_unhandled_fault[of dec_int "machine [] 0 ''42''" Stop init_controller 0] p5
    by blast
  from a b c d p2 p3 p4 p5 show ?thesis by blast
qed

text \<open>
  C3, as the code has it. \<^verbatim>\<open>pause_all_audio\<close> and \<^verbatim>\<open>resume_all_audio\<close> send the
  signal to each discovered process id, skipping those that raise, and return a boolean,
  \<^verbatim>\<open>paused_count > 0\<close> and \<^verbatim>\<open>resumed_count > 0\<close>: \<^verbatim>\<open>True\<close> exactly when at least
  one discovered process was there to take the signal. Afterwards each discovered process
  that exists is suspended (resp. running, or ended by a terminate signal that was pending
  on it) and no other entry of the process table has changed.
\<close>

theorem pause_resume_all_result:
  assumes "find_audio_processes to_int w = Inr ps"
  shows "\<exists>w1 w2. pause_all_audio to_int w = Inr (\<exists>p \<in> set ps. alive w p, w1)
           \<and> resume_all_audio to_int w = Inr (\<exists>p \<in> set ps. alive w p, w2)
           \<and> (\<forall>p pr. p \<in> set ps \<and> procs w p = Some pr \<longrightarrow>
                 procs w1 p = Some (pr\<lparr>status := Suspended\<rparr>)
                 \<and> procs w2 p =
                     (if pending_term pr then None else Some (pr\<lparr>status := Running\<rparr>)))
           \<and> (\<forall>q. \<not> (q \<in> set ps \<and> alive w q) \<longrightarrow>
                 procs w1 q = procs w q \<and> procs w2 q = procs w q)"
proof -
  obtain n1 where r1: "signal_each SIGSTOP ps 0 w = Inr (n1, signalled SIGSTOP ps w)"
    "(0 < n1) = (\<exists>p \<in> set ps. alive w p)"
    using signal_each_spec[of SIGSTOP ps 0 w] by blast
  obtain n2 where r2: "signal_each SIGCONT ps 0 w = Inr (n2, signalled SIGCONT ps w)"
    "(0 < n2) = (\<exists>p \<in> set ps. alive w p)"
    using signal_each_spec[of SIGCONT ps 0 w] by blast
  have 1: "pause_all_audio to_int w = Inr (\<exists>p \<in> set ps. alive w p, signalled SIGSTOP ps w)"
    using assms r1 by (simp add: pause_all_audio_def)
  have 2: "resume_all_audio to_int w = Inr (\<exists>p \<in> set ps. alive w p, signalled SIGCONT ps w)"
    using assms r2 by (simp add: resume_all_audio_def)
  have 3: "\<forall>p pr. p \<in> set ps \<and> procs w p = Some pr \<longrightarrow>
      procs (signalled SIGSTOP ps w) p = Some (pr\<lparr>status := Suspended\<rparr>)
      \<and> procs (signalled SIGCONT ps w) p =
          (if pending_term pr then None else Some (pr\<lparr>status := Running\<rparr>))"
    by (simp add: signalled_def)
  have 4: "\<forall>q. \<not> (q \<in> set ps \<and> alive w q) \<longrightarrow>
      procs (signalled SIGSTOP ps w) q = procs w q
      \<and> procs (signalled SIGCONT ps w) q = procs w q"
    by (auto simp: signalled_def alive_def)
  show ?thesis using 1 2 3 4 by blast
qed

text \<open>The theorem on a machine with two players, both listed by \<^verbatim>\<open>pgrep\<close>.\<close>

theorem pause_resume_all_result_witness:
  "find_audio_processes dec_int (machine [101, 202] 0 ''101 202'') = Inr [101, 202]
   \<and> (\<exists>w1 w2. pause_all_audio dec_int (machine [101, 202] 0 ''101 202'') = Inr (True, w1)
         \<and> resume_all_audio dec_int (machine [101, 202] 0 ''101 202'') = Inr (True, w2)
         \<and> procs w1 202 = Some \<lparr>exe = ''afplay'', status = Suspended, pending_term = False\<rparr>
         \<and> procs w2 202 = Some \<lparr>exe = ''afplay'', status = Running, pending_term = False\<rparr>)"
proof -
  have f: "find_audio_processes dec_int (machine [101, 202] 0 ''101 202'') = Inr [101, 202]"
    by (simp add: find_audio_processes_def machine_def py_split_def py_strip_def
        py_isspace_def dec_int_def digit_val_def)
  have a: "(\<exists>p \<in> set [101, 202]. alive (machine [101, 202] 0 ''101 202'') p) = True"
    "202 \<in> set [101, 202::int]"
    "procs (machine [101, 202] 0 ''101 202'') 202
       = Some \<lparr>exe = ''afplay'', status = Running, pending_term = False\<rparr>"
    by (auto simp: alive_def machine_def)
  from pause_resume_all_result[OF f]
  obtain w1 w2 where r: "pause_all_audio dec_int (machine [101, 202] 0 ''101 202'') =
      Inr (\<exists>p \<in> set [101, 202]. alive (machine [101, 202] 0 ''101 202'') p, w1)"
    "resume_all_audio dec_int (machine [101, 202] 0 ''101 202'') =
      Inr (\<exists>p \<in> set [101, 202]. alive (machine [101, 202] 0 ''101 202'') p, w2)"
    and s: "\<forall>p pr. p \<in> set [101, 202] \<and> procs (machine [101, 202] 0 ''101 202'') p = Some pr \<longrightarrow>
      procs w1 p = Some (pr\<lparr>status := Suspended\<rparr>)
      \<and> procs w2 p = (if pending_term pr then None else Some (pr\<lparr>status := Running\<rparr>))"
    by blast
  from s a
  have "procs w1 202 = Some (\<lparr>exe = ''afplay'', status = Running, pending_term = False\<rparr>
                               \<lparr>status := Suspended\<rparr>)
      \<and> procs w2 202 =
         (if pending_term \<lparr>exe = ''afplay'', status = Running, pending_term = False\<rparr> then None
          else Some (\<lparr>exe = ''afplay'', status = Running, pending_term = False\<rparr>
                       \<lparr>status := Running\<rparr>))"
    by blast
  then have "procs w1 202 = Some \<lparr>exe = ''afplay'', status = Suspended, pending_term = False\<rparr>
      \<and> procs w2 202 = Some \<lparr>exe = ''afplay'', status = Running, pending_term = False\<rparr>"
    by simp
  with f r a(1) show ?thesis by auto
qed

text \<open>
  C3 as stated fails: the value returned is not the number of processes signaled. With two
  players the loop signals both (its counter ends at 2), and \<^verbatim>\<open>pause_all_audio\<close> and
  \<^verbatim>\<open>resume_all_audio\<close> return \<^verbatim>\<open>True\<close>, the value they also return with one player.
\<close>

theorem pause_all_not_a_count:
  "map_sum id fst (signal_each SIGSTOP [101, 202] 0 (machine [101, 202] 0 ''101 202'')) = Inr 2
   \<and> map_sum id fst (pause_all_audio dec_int (machine [101, 202] 0 ''101 202'')) = Inr True
   \<and> map_sum id fst (resume_all_audio dec_int (machine [101, 202] 0 ''101 202'')) = Inr True
   \<and> map_sum id fst (signal_each SIGSTOP [101] 0 (machine [101] 0 ''101'')) = Inr 1
   \<and> map_sum id fst (pause_all_audio dec_int (machine [101] 0 ''101'')) = Inr True
   \<and> map_sum id fst (resume_all_audio dec_int (machine [101] 0 ''101'')) = Inr True"
  by (simp add: pause_all_audio_def resume_all_audio_def find_audio_processes_def machine_def
      py_split_def py_strip_def py_isspace_def dec_int_def digit_val_def os_kill_def)

text \<open>
  C6, as the code has it. \<^verbatim>\<open>stop_all_audio\<close> never raises. It sends the terminate
  signal to every discovered process id and goes on after one that fails, then runs the
  sweep by executable name. It returns \<^verbatim>\<open>stopped_count > 0\<close>, the counter of the
  calls of \<^verbatim>\<open>os.kill\<close> in the loop that did not raise: \<^verbatim>\<open>True\<close> if and only if at
  least one terminate signal sent to a discovered process id did not fail. What the sweep
  does is not counted. With no discovered process the result is \<^verbatim>\<open>False\<close>. Afterwards
  the terminate signal has reached every discovered process that exists and, when
  \<^verbatim>\<open>killall\<close> can be launched, every process named \<^verbatim>\<open>afplay\<close>, \<^verbatim>\<open>aplay\<close> or
  \<^verbatim>\<open>paplay\<close> (a running one is gone, a suspended one has the signal pending); no other
  process is touched.
\<close>

theorem stop_all_audio_result:
  assumes "find_audio_processes to_int w = Inr ps"
  shows "\<exists>b w'. stop_all_audio to_int w = Inr (b, w')
           \<and> b = (\<exists>p \<in> set ps. alive w p)
           \<and> (ps = [] \<longrightarrow> \<not> b)
           \<and> (\<forall>q pr. procs w q = Some pr \<longrightarrow>
                 procs w' q =
                   (if q \<in> set ps
                       \<or> (killall_present w \<and> exe pr \<in> {''afplay'', ''aplay'', ''paplay''})
                    then deliver SIGTERM pr else Some pr))
           \<and> (\<forall>q. procs w q = None \<longrightarrow> procs w' q = None)"
proof -
  obtain n' where r: "signal_each SIGTERM ps 0 w = Inr (n', signalled SIGTERM ps w)"
    "(0 < n') = (\<exists>p \<in> set ps. alive w p)"
    using signal_each_spec[of SIGTERM ps 0 w] by blast
  let ?w' = "killall_sweep (signalled SIGTERM ps w)"
  have 1: "stop_all_audio to_int w = Inr (\<exists>p \<in> set ps. alive w p, ?w')"
    using assms r by (simp add: stop_all_audio_def)
  have 2: "ps = [] \<longrightarrow> \<not> (\<exists>p \<in> set ps. alive w p)" by simp
  have 3: "procs ?w' q =
      (if q \<in> set ps \<or> (killall_present w \<and> exe pr \<in> {''afplay'', ''aplay'', ''paplay''})
       then deliver SIGTERM pr else Some pr)"
    if pr: "procs w q = Some pr" for q pr
  proof (cases "deliver SIGTERM pr")
    case None
    with pr show ?thesis
      by (simp add: killall_sweep_procs signalled_def)
  next
    case (Some pr')
    have "exe pr' = exe pr" by (rule deliver_exe[OF Some])
    moreover have "deliver SIGTERM pr' = Some pr'" by (rule deliver_twice[OF Some])
    ultimately show ?thesis using pr Some
      by (simp add: killall_sweep_procs signalled_def)
  qed
  have 4: "\<forall>q. procs w q = None \<longrightarrow> procs ?w' q = None"
    by (simp add: killall_sweep_procs signalled_def)
  from 3 have all3: "\<forall>q pr. procs w q = Some pr \<longrightarrow> procs ?w' q =
      (if q \<in> set ps \<or> (killall_present w \<and> exe pr \<in> {''afplay'', ''aplay'', ''paplay''})
       then deliver SIGTERM pr else Some pr)"
    by blast
  show ?thesis
    apply (rule exI[of _ "\<exists>p \<in> set ps. alive w p"])
    apply (rule exI[of _ ?w'])
    apply (intro conjI)
        apply (rule 1)
       apply (rule refl)
      apply (rule 2)
     apply (rule all3)
    apply (rule 4)
    done
qed

text \<open>The theorem on a machine where \<^verbatim>\<open>pgrep\<close> lists a running player and a process
  that has gone, and on a machine without players.\<close>

theorem stop_all_audio_result_witness:
  "find_audio_processes dec_int (machine [101] 0 ''101 999'') = Inr [101, 999]
   \<and> (\<exists>w'. stop_all_audio dec_int (machine [101] 0 ''101 999'') = Inr (True, w')
         \<and> \<not> alive w' 101 \<and> \<not> alive w' 999)
   \<and> find_audio_processes dec_int (machine [] 1 []) = Inr []
   \<and> (\<exists>w'. stop_all_audio dec_int (machine [] 1 []) = Inr (False, w'))"
proof -
  have f: "find_audio_processes dec_int (machine [101] 0 ''101 999'') = Inr [101, 999]"
    by (simp add: find_audio_processes_def machine_def py_split_def py_strip_def
        py_isspace_def dec_int_def digit_val_def)
  have g: "find_audio_processes dec_int (machine [] 1 []) = Inr []"
    by (simp add: find_audio_processes_def machine_def)
  have a: "(\<exists>p \<in> set [101, 999]. alive (machine [101] 0 ''101 999'') p) = True"
    by (auto simp: alive_def machine_def)
  have t: "procs (machine [101] 0 ''101 999'') 101
      = Some \<lparr>exe = ''afplay'', status = Running, pending_term = False\<rparr>"
    "procs (machine [101] 0 ''101 999'') 999 = None"
    by (simp_all add: machine_def)
  obtain b w' where s: "stop_all_audio dec_int (machine [101] 0 ''101 999'') = Inr (b, w')"
    and b: "b = (\<exists>p \<in> set [101, 999]. alive (machine [101] 0 ''101 999'') p)"
    and d: "\<forall>q pr. procs (machine [101] 0 ''101 999'') q = Some pr \<longrightarrow>
      procs w' q =
        (if q \<in> set [101, 999]
            \<or> (killall_present (machine [101] 0 ''101 999'')
                \<and> exe pr \<in> {''afplay'', ''aplay'', ''paplay''})
         then deliver SIGTERM pr else Some pr)"
    and e: "\<forall>q. procs (machine [101] 0 ''101 999'') q = None \<longrightarrow> procs w' q = None"
    using stop_all_audio_result[OF f] by blast
  from a b have "b = True" by (simp only:)
  with s have s': "stop_all_audio dec_int (machine [101] 0 ''101 999'') = Inr (True, w')"
    by (simp only:)
  from d t(1) have "procs w' 101 =
      (if 101 \<in> set [101, 999::int]
          \<or> (killall_present (machine [101] 0 ''101 999'')
              \<and> exe \<lparr>exe = ''afplay'', status = Running, pending_term = False\<rparr>
                   \<in> {''afplay'', ''aplay'', ''paplay''})
       then deliver SIGTERM \<lparr>exe = ''afplay'', status = Running, pending_term = False\<rparr>
       else Some \<lparr>exe = ''afplay'', status = Running, pending_term = False\<rparr>)"
    by blast
  then have "procs w' 101 = None" by simp
  moreover from e t(2) have "procs w' 999 = None" by blast
  ultimately have "\<not> alive w' 101 \<and> \<not> alive w' 999" by (simp add: alive_def)
  with s'
  have 1: "\<exists>w'. stop_all_audio dec_int (machine [101] 0 ''101 999'') = Inr (True, w')
         \<and> \<not> alive w' 101 \<and> \<not> alive w' 999"
    by blast
  obtain b0 w0 where s0: "stop_all_audio dec_int (machine [] 1 []) = Inr (b0, w0)"
    and b0: "([] :: pid list) = [] \<longrightarrow> \<not> b0"
    using stop_all_audio_result[OF g] by blast
  from b0 have "b0 = False" by simp
  with s0 have "stop_all_audio dec_int (machine [] 1 []) = Inr (False, w0)"
    by (simp only:)
  then have 2: "\<exists>w'. stop_all_audio dec_int (machine [] 1 []) = Inr (False, w')"
    by blast
  show ?thesis
    apply (intro conjI)
       apply (rule f)
      apply (rule 1)
     apply (rule g)
    apply (rule 2)
    done
qed

text \<open>
  C6 as stated fails when a signal attempt of the sweep is one that did not fail. On a
  machine where player 101 runs and \<^verbatim>\<open>pgrep\<close> lists nothing (the player started after
  the listing), the loop sends no signal, the sweep terminates the player, and
  \<^verbatim>\<open>stop_all_audio\<close> returns \<^verbatim>\<open>False\<close>.
\<close>

theorem stop_all_sweep_not_counted:
  "alive (machine [101] 1 []) 101
   \<and> find_audio_processes dec_int (machine [101] 1 []) = Inr []
   \<and> map_sum id fst (stop_all_audio dec_int (machine [101] 1 [])) = Inr False
   \<and> map_sum id (\<lambda>r. alive (snd r) 101) (stop_all_audio dec_int (machine [101] 1 []))
       = Inr False"
  by (simp add: stop_all_audio_def find_audio_processes_def machine_def alive_def
      killall_sweep_def run_killall_def)

section \<open>Properties of the text handed to the speech synthesis\<close>

lemma replace_from_absent:
  "old \<noteq> [] \<Longrightarrow> hd old \<notin> set s \<Longrightarrow> replace_from old new s = s"
proof (induction s)
  case Nil
  then show ?case by simp
next
  case (Cons c cs)
  have "take (length old) (c # cs) \<noteq> old"
  proof
    assume "take (length old) (c # cs) = old"
    then have "hd old = hd (take (length old) (c # cs))" by simp
    also have "\<dots> = c" using Cons.prems(1) by (cases old) auto
    finally show False using Cons.prems(2) by simp
  qed
  with Cons show ?case by simp
qed

lemma replace_from_other:
  "old \<noteq> [] \<Longrightarrow> hd old \<noteq> c \<Longrightarrow> replace_from old new (replicate n c) = replicate n c"
  by (rule replace_from_absent) auto

lemma replace_from_all: "replace_from [c] [] (replicate n c) = []"
  by (induction n) auto

lemma cleanup_plain:
  "set s \<inter> {CHR ''`'', CHR ''#'', CHR ''*'', CHR ''-''} = {} \<Longrightarrow> cleanup s = s"
  by (simp add: cleanup_def py_replace_def replace_from_absent)

lemma cleanup_hashes: "cleanup (replicate n CHR ''#'') = []"
  by (simp add: cleanup_def py_replace_def replace_from_other replace_from_all)

lemma py_strip_nonblank:
  assumes "c \<in> set s" and "\<not> py_isspace c"
  shows "py_strip s \<noteq> []"
proof -
  let ?t = "dropWhile py_isspace s"
  from assms have t: "?t \<noteq> []" by (auto simp: dropWhile_eq_Nil_conv)
  then have "\<not> py_isspace (hd ?t)" by (rule hd_dropWhile)
  moreover from t have "hd ?t \<in> set (rev ?t)" by simp
  ultimately have "dropWhile py_isspace (rev ?t) \<noteq> []"
    by (auto simp: dropWhile_eq_Nil_conv simp del: set_rev)
  then show ?thesis by (simp add: py_strip_def)
qed

text \<open>
  C7, as the code has it. Whenever \<^verbatim>\<open>fast_read\<close> reaches the speech-synthesis call
  (the text read is not blank), the threshold is applied to the cleaned text: if the
  cleaned text is longer than 4000 characters, the text submitted is exactly its first
  4000 characters followed by the marker \<^verbatim>\<open>... Content truncated for TTS playback.\<close>
  (4039 characters in all); if the cleaned text has at most 4000 characters, it is
  submitted as it is.
\<close>

theorem speech_input_truncation:
  "(py_strip content \<noteq> [] \<and> length (cleanup content) > 4000 \<longrightarrow>
      speech_input content =
        Some (take 4000 (cleanup content) @ ''... Content truncated for TTS playback.'')
      \<and> length (the (speech_input content)) = 4039)
   \<and> (py_strip content \<noteq> [] \<and> length (cleanup content) \<le> 4000 \<longrightarrow>
      speech_input content = Some (cleanup content))"
  by (simp add: speech_input_def truncate_content_def max_chunk_size_def)

text \<open>The theorem at a text of 5000 letters, and at a short text.\<close>

theorem speech_input_truncation_witness:
  "py_strip (replicate 5000 CHR ''a'') \<noteq> []
   \<and> length (cleanup (replicate 5000 CHR ''a'')) > 4000
   \<and> speech_input (replicate 5000 CHR ''a'') =
       Some (replicate 4000 CHR ''a'' @ ''... Content truncated for TTS playback.'')
   \<and> py_strip ''# a-b'' \<noteq> [] \<and> length (cleanup ''# a-b'') \<le> 4000
   \<and> speech_input ''# a-b'' = Some '' a b''"
proof -
  have a: "\<not> py_isspace CHR ''a''" by (simp add: py_isspace_def)
  have s: "py_strip (replicate 5000 CHR ''a'') \<noteq> []"
    by (rule py_strip_nonblank[of "CHR ''a''"]) (simp_all add: a)
  have c: "cleanup (replicate 5000 CHR ''a'') = replicate 5000 CHR ''a''"
    by (rule cleanup_plain) simp
  have t: "py_strip ''# a-b'' \<noteq> []"
    by (rule py_strip_nonblank[of "CHR ''a''"]) (simp_all add: a)
  have d: "cleanup ''# a-b'' = '' a b''"
    by (simp add: cleanup_def py_replace_def)
  from speech_input_truncation[of "replicate 5000 CHR ''a''"] s c
  have 1: "speech_input (replicate 5000 CHR ''a'') =
       Some (replicate 4000 CHR ''a'' @ ''... Content truncated for TTS playback.'')"
    by simp
  from speech_input_truncation[of "''# a-b''"] t d
  have 2: "speech_input ''# a-b'' = Some '' a b''"
    by simp
  from s c t d 1 2 show ?thesis by simp
qed

lemma replace_from_ticks:
  "replace_from ''```'' new (concat (replicate n ''```'')) = concat (replicate n new)"
  by (induction n) simp_all

lemma length_concat_replicate: "length (concat (replicate n s)) = n * length s"
  by (induction n) simp_all

lemma cleanup_ticks:
  "cleanup (concat (replicate n ''```'')) = concat (replicate n '' code block '')"
proof -
  have "\<And>old. old \<noteq> [] \<Longrightarrow> hd old \<notin> set '' code block '' \<Longrightarrow>
      replace_from old new (concat (replicate n '' code block ''))
        = concat (replicate n '' code block '')" for new
    by (rule replace_from_absent) auto
  then show ?thesis
    by (simp add: cleanup_def py_replace_def replace_from_ticks)
qed

text \<open>
  C7 as stated fails, because the threshold is not applied to the text that comes in. A
  text of 4001 characters \<^verbatim>\<open>#\<close> is longer than the threshold, its cleaned form is
  empty, and the empty text is submitted, without a marker. A text of 334 code fences,
  1002 characters, is below the threshold, its cleaned form has 4008 characters, and what
  is submitted is not the cleaned text but its truncation.
\<close>

theorem speech_input_raw_length:
  "length (replicate 4001 CHR ''#'') > 4000
   \<and> speech_input (replicate 4001 CHR ''#'') = Some []
   \<and> speech_input (replicate 4001 CHR ''#'') \<noteq>
       Some (take 4000 (cleanup (replicate 4001 CHR ''#''))
             @ ''... Content truncated for TTS playback.'')
   \<and> length (concat (replicate 334 ''```'')) = 1002
   \<and> length (cleanup (concat (replicate 334 ''```''))) = 4008
   \<and> speech_input (concat (replicate 334 ''```'')) \<noteq>
       Some (cleanup (concat (replicate 334 ''```'')))"
proof -
  have h: "\<not> py_isspace CHR ''#''" "\<not> py_isspace CHR 0x60"
    by (simp_all add: py_isspace_def)
  from h(1) have a: "py_strip (replicate 4001 CHR ''#'') \<noteq> []"
    by (intro py_strip_nonblank[of "CHR ''#''"]) simp_all
  have "CHR 0x60 \<in> set (concat (replicate 334 ''```''))" by simp
  with h(2) have b: "py_strip (concat (replicate 334 ''```'')) \<noteq> []"
    by (intro py_strip_nonblank[of "CHR 0x60"])
  have l: "length (cleanup (concat (replicate 334 ''```''))) = 4008"
    by (simp add: cleanup_ticks length_concat_replicate)
  have 1: "speech_input (replicate 4001 CHR ''#'') = Some []"
    using a
    by (simp add: speech_input_def truncate_content_def max_chunk_size_def cleanup_hashes)
  have "length (the (speech_input (concat (replicate 334 ''```'')))) = 4039"
    using b l by (simp add: speech_input_def truncate_content_def max_chunk_size_def)
  with l have 2: "speech_input (concat (replicate 334 ''```'')) \<noteq>
       Some (cleanup (concat (replicate 334 ''```'')))"
    by auto
  from 1 2 l show ?thesis
    by (simp add: cleanup_hashes length_concat_replicate)
qed

section \<open>Properties of the auto-read classifier\<close>

lemma py_in_iff: "py_in pat s = (\<exists>pre suf. s = pre @ pat @ suf)"
proof (induction s)
  case Nil
  then show ?case by auto
next
  case (Cons c cs)
  show ?case
  proof
    assume "py_in pat (c # cs)"
    then consider "take (length pat) (c # cs) = pat" | "py_in pat cs" by auto
    then show "\<exists>pre suf. c # cs = pre @ pat @ suf"
    proof cases
      case 1
      then have "c # cs = [] @ pat @ drop (length pat) (c # cs)"
        by (metis append_Nil append_take_drop_id)
      then show ?thesis by blast
    next
      case 2
      then obtain pre suf where "cs = pre @ pat @ suf" using Cons.IH by blast
      then have "c # cs = (c # pre) @ pat @ suf" by simp
      then show ?thesis by blast
    qed
  next
    assume "\<exists>pre suf. c # cs = pre @ pat @ suf"
    then obtain pre suf where e: "c # cs = pre @ pat @ suf" by blast
    show "py_in pat (c # cs)"
    proof (cases pre)
      case Nil
      then have "take (length pat) (c # cs) = pat" using e by simp
      then show ?thesis by simp
    next
      case (Cons a pre')
      then have "cs = pre' @ pat @ suf" using e by simp
      then have "py_in pat cs" using Cons.IH by blast
      then show ?thesis by simp
    qed
  qed
qed

lemma py_in_inner: "py_in (a @ b @ c) s \<Longrightarrow> py_in b s"
proof -
  assume "py_in (a @ b @ c) s"
  then obtain pre suf where "s = pre @ (a @ b @ c) @ suf" unfolding py_in_iff by blast
  then have "s = (pre @ a) @ b @ (c @ suf)" by simp
  then show ?thesis unfolding py_in_iff by blast
qed

text \<open>The first pattern of the list adds nothing: a name that contains
  \<^verbatim>\<open>implementation-summary\<close> contains \<^verbatim>\<open>summary\<close>.\<close>

lemma patterns_keywords:
  "list_ex (\<lambda>pattern. py_in pattern s) auto_read_patterns
   = list_ex (\<lambda>k. py_in k s) spec_keywords"
proof -
  have "py_in ''implementation-summary'' s \<Longrightarrow> py_in ''summary'' s"
    using py_in_inner[of "''implementation-''" "''summary''" "[]" s] by simp
  then show ?thesis
    by (auto simp: auto_read_patterns_def spec_keywords_def)
qed

lemma lower_name_example:
  "py_lower (path_name ''IMPLEMENTATION-SUMMARY.md'') = ''implementation-summary.md''"
  by code_simp

text \<open>
  C8, as the code has it. \<^verbatim>\<open>should_auto_read\<close> accepts a path if and only if the path
  is not empty, the file exists, and the lower-cased file name contains one of the
  keywords \<^verbatim>\<open>summary\<close>, \<^verbatim>\<open>readme\<close>, \<^verbatim>\<open>implementation\<close>, \<^verbatim>\<open>todo\<close>, \<^verbatim>\<open>plan\<close>,
  \<^verbatim>\<open>requirements\<close> as a substring.
\<close>

theorem should_auto_read_iff:
  "should_auto_read path_exists file_path =
     (file_path \<noteq> [] \<and> path_exists file_path \<and>
      (\<exists>k \<in> set spec_keywords. \<exists>pre suf. py_lower (path_name file_path) = pre @ k @ suf))"
  unfolding should_auto_read_def Let_def patterns_keywords
  by (simp add: list_ex_iff py_in_iff)

text \<open>The theorem at the two names of the specification, on a file system where every
  path exists: \<^verbatim>\<open>IMPLEMENTATION-SUMMARY.md\<close> is accepted, \<^verbatim>\<open>notes.txt\<close> is not.\<close>

theorem should_auto_read_iff_witness:
  "''summary'' \<in> set spec_keywords
   \<and> py_lower (path_name ''IMPLEMENTATION-SUMMARY.md'') = ''implementation-'' @ ''summary'' @ ''.md''
   \<and> should_auto_read (\<lambda>f. True) ''IMPLEMENTATION-SUMMARY.md''
   \<and> \<not> should_auto_read (\<lambda>f. True) ''notes.txt''
   \<and> \<not> (\<exists>k \<in> set spec_keywords. \<exists>pre suf. py_lower (path_name ''notes.txt'') = pre @ k @ suf)"
proof -
  have k: "''summary'' \<in> set spec_keywords" by (simp add: spec_keywords_def)
  have n: "py_lower (path_name ''IMPLEMENTATION-SUMMARY.md'')
      = ''implementation-'' @ ''summary'' @ ''.md''"
    by (simp add: lower_name_example)
  from k n have "\<exists>k \<in> set spec_keywords. \<exists>pre suf.
      py_lower (path_name ''IMPLEMENTATION-SUMMARY.md'') = pre @ k @ suf"
    by blast
  with should_auto_read_iff[of "\<lambda>f. True" "''IMPLEMENTATION-SUMMARY.md''"]
  have yes: "should_auto_read (\<lambda>f. True) ''IMPLEMENTATION-SUMMARY.md''" by simp
  have no: "\<not> should_auto_read (\<lambda>f. True) ''notes.txt''" by code_simp
  with should_auto_read_iff[of "\<lambda>f. True" "''notes.txt''"]
  have none: "\<not> (\<exists>k \<in> set spec_keywords. \<exists>pre suf.
      py_lower (path_name ''notes.txt'') = pre @ k @ suf)"
    by simp
  from k n yes no none show ?thesis by blast
qed

text \<open>
  C8 as stated fails: the name \<^verbatim>\<open>IMPLEMENTATION-SUMMARY.md\<close> contains the keyword
  \<^verbatim>\<open>summary\<close> once lower-cased, and \<^verbatim>\<open>should_auto_read\<close> rejects the path when no
  such file exists.
\<close>

theorem should_auto_read_missing_file:
  "py_in ''summary'' (py_lower (path_name ''IMPLEMENTATION-SUMMARY.md''))
   \<and> \<not> should_auto_read (\<lambda>f. False) ''IMPLEMENTATION-SUMMARY.md''"
proof -
  have "py_in ''summary'' ''implementation-summary.md''" by code_simp
  then show ?thesis by (simp add: lower_name_example should_auto_read_def)
qed

end
